theory Spec2Isabelle
  imports
    Complex_Main
    "HOL-Library.Sublist"
    "HOL-Library.Char_ord"
    "HOL-Library.List_Lexorder"
begin

section \<open>Data model\<close>

text \<open>
  The product controller works on Mongoose documents of the model \<^verbatim>\<open>Product\<close>. The schema
  file (\<^verbatim>\<open>models/productModel.js\<close>) is not part of the sources at hand, so the records
  below carry exactly the fields the controller reads and writes.

  Numbers are JavaScript doubles in the program. They are modelled by exact rationals:
  rounding, \<^verbatim>\<open>NaN\<close> and the infinities are outside the model, except where a handler can
  produce them from well-formed input (the page count, see \<open>ceil_pages\<close> below).
  Object identifiers are opaque; they are modelled by natural numbers and compared by
  equality, which is what \<^verbatim>\<open>toString()\<close> followed by \<^verbatim>\<open>===\<close> does on well-formed ids.
\<close>

type_synonym oid = nat

text \<open>The authenticated caller, \<^verbatim>\<open>req.user\<close>: the controller reads \<^verbatim>\<open>_id\<close> and \<^verbatim>\<open>name\<close>.\<close>

record caller =
  caller_id :: oid
  caller_name :: string

text \<open>
  An embedded review. The source's field names \<^verbatim>\<open>name\<close>, \<^verbatim>\<open>rating\<close> and \<^verbatim>\<open>user\<close> are also
  fields of a product, so they carry the prefix \<open>review_\<close> here.
\<close>

record review =
  review_name :: string
  review_rating :: rat
  review_comment :: string
  review_user :: oid

text \<open>
  A product document. \<open>pid\<close> is the field \<^verbatim>\<open>_id\<close>, \<open>image_path\<close> the field \<^verbatim>\<open>image\<close>
  (\<open>image\<close> is a constant of HOL), \<open>char_text\<close> the field \<^verbatim>\<open>char\<close>.
\<close>

record product =
  pid :: oid
  user :: oid
  name :: string
  price :: rat
  description :: string
  image_path :: string
  brand :: string
  category :: string
  countInStock :: nat
  colors :: "string list"
  char_text :: string
  year :: "int option"
  numReviews :: nat
  rating :: rat
  reviews :: "review list"

text \<open>The ten fields that \<^verbatim>\<open>createProduct\<close> and \<^verbatim>\<open>updateProduct\<close> destructure from \<^verbatim>\<open>req.body\<close>.\<close>

record fields =
  f_name :: string
  f_price :: rat
  f_description :: string
  f_image :: string
  f_brand :: string
  f_category :: string
  f_countInStock :: nat
  f_colors :: "string list"
  f_char :: string
  f_year :: "int option"

section \<open>The document store\<close>

text \<open>
  The collection is a list of documents in the store's natural order. The three
  single-document operations the controller uses are \<^verbatim>\<open>findById\<close>, \<^verbatim>\<open>save\<close> on a
  document that was loaded from the collection, and \<^verbatim>\<open>deleteOne({_id})\<close>.
\<close>

type_synonym collection = "product list"

definition findById :: "oid \<Rightarrow> collection \<Rightarrow> product option" where
  "findById i db = find (\<lambda>p. pid p = i) db"

text \<open>\<^verbatim>\<open>save\<close> of a loaded document writes it back under its \<^verbatim>\<open>_id\<close>.\<close>

definition save :: "product \<Rightarrow> collection \<Rightarrow> collection" where
  "save d db = map (\<lambda>q. if pid q = pid d then d else q) db"

text \<open>\<^verbatim>\<open>save\<close> of a document made by \<^verbatim>\<open>new Product\<close> inserts it.\<close>

definition insert_doc :: "product \<Rightarrow> collection \<Rightarrow> collection" where
  "insert_doc d db = db @ [d]"

fun deleteOne :: "oid \<Rightarrow> collection \<Rightarrow> collection" where
  "deleteOne i [] = []"
| "deleteOne i (q # db) = (if pid q = i then db else q # deleteOne i db)"

section \<open>Responses and failures\<close>

text \<open>
  A handler either sends a body with \<^verbatim>\<open>res.json\<close> under the status set before (200 when
  none was set), or throws. \<open>Failure s m\<close> is \<^verbatim>\<open>res.status(s); throw new Error(m)\<close>.
  \<open>Unhandled\<close> is a rejection by the store or the file system of a promise the handler
  awaits: the handler has set no status for it and runs no further.
\<close>

datatype failure = Failure nat string | Unhandled

record 'b response =
  status :: nat
  body :: 'b

definition ok :: "'b \<Rightarrow> 'b response" where
  "ok b = \<lparr>status = 200, body = b\<rparr>"

section \<open>Single-product handlers\<close>

definition getProductById :: "collection \<Rightarrow> oid \<Rightarrow> failure + product response" where
  "getProductById db i =
     (case findById i db of
        Some product \<Rightarrow> Inr (ok product)
      | None \<Rightarrow> Inl (Failure 404 ''Product not found''))"

definition updateProduct ::
  "collection \<Rightarrow> oid \<Rightarrow> fields \<Rightarrow> (failure + product response) \<times> collection" where
  "updateProduct db i b =
     (case findById i db of
        Some product \<Rightarrow>
          (let updatedProduct = product
                 \<lparr>name := f_name b,
                  price := f_price b,
                  description := f_description b,
                  image_path := f_image b,
                  brand := f_brand b,
                  category := f_category b,
                  countInStock := f_countInStock b,
                  colors := f_colors b,
                  char_text := f_char b,
                  year := f_year b\<rparr>
           in (Inr (ok updatedProduct), save updatedProduct db))
      | None \<Rightarrow> (Inl (Failure 404 ''Product not found''), db))"

text \<open>
  \<^verbatim>\<open>deleteProduct\<close> touches the file system. The world it runs in is the collection and
  the paths that exist. At a \<open>Removable\<close> path \<^verbatim>\<open>unlink\<close> resolves and the path is gone; at a
  \<open>Fixed\<close> path (a directory, a file the process may not remove) \<^verbatim>\<open>existsSync\<close> is true
  and \<^verbatim>\<open>unlink\<close> rejects, so the handler leaves through \<^verbatim>\<open>await\<close> with no status set and
  never reaches \<^verbatim>\<open>deleteOne\<close>. The handler's calls are recorded in the order it makes
  them. \<open>cwd\<close> is \<^verbatim>\<open>path.resolve()\<close>; \<^verbatim>\<open>path.join\<close> is a parameter \<open>pjoin\<close>.
\<close>

datatype effect = ExistsSync string | Unlink string | DeleteOne oid

datatype node = Removable | Fixed

record world =
  docs :: collection
  files :: "string \<rightharpoonup> node"

text \<open>The last two statements of the success branch: \<^verbatim>\<open>deleteOne\<close>, then the answer.\<close>

definition remove_record ::
  "product \<Rightarrow> world \<Rightarrow> effect list \<Rightarrow> (failure + string response) \<times> world \<times> effect list" where
  "remove_record product w tr =
     (Inr (ok ''Product removed''),
      w\<lparr>docs := deleteOne (pid product) (docs w)\<rparr>,
      tr @ [DeleteOne (pid product)])"

definition deleteProduct ::
  "(string \<Rightarrow> string \<Rightarrow> string) \<Rightarrow> string \<Rightarrow> world \<Rightarrow> oid
     \<Rightarrow> (failure + string response) \<times> world \<times> effect list" where
  "deleteProduct pjoin cwd w i =
     (case findById i (docs w) of
        Some product \<Rightarrow>
          (if prefix ''/uploads'' (image_path product) then
             (let filePath = pjoin cwd (image_path product)
              in case files w filePath of
                   None \<Rightarrow> remove_record product w [ExistsSync filePath]
                 | Some Removable \<Rightarrow>
                     remove_record product (w\<lparr>files := (files w)(filePath := None)\<rparr>)
                       [ExistsSync filePath, Unlink filePath]
                 | Some Fixed \<Rightarrow> (Inl Unhandled, w, [ExistsSync filePath, Unlink filePath]))
           else remove_record product w [])
      | None \<Rightarrow> (Inl (Failure 404 ''Product not found''), w, []))"

section \<open>Reviews\<close>

text \<open>
  \<^verbatim>\<open>createProduct\<close>. The identifier of the new document is chosen by the store and is a
  parameter here. The handler passes neither \<^verbatim>\<open>reviews\<close> nor \<^verbatim>\<open>rating\<close> to the
  constructor, so both come from the schema: an array field starts empty.
\<close>

text \<open>
  Modelled from the spec: the schema (\<^verbatim>\<open>models/productModel.js\<close>) is not among the
  sources; the spec gives the rating of a product without reviews as 0.
\<close>

definition schema_default_rating :: rat where
  "schema_default_rating = 0"

definition createProduct ::
  "collection \<Rightarrow> oid \<Rightarrow> caller \<Rightarrow> fields \<Rightarrow> (failure + product response) \<times> collection" where
  "createProduct db fresh u b =
     (let product =
            \<lparr>pid = fresh,
             user = caller_id u,
             name = f_name b,
             price = f_price b,
             description = f_description b,
             image_path = f_image b,
             brand = f_brand b,
             category = f_category b,
             countInStock = f_countInStock b,
             colors = f_colors b,
             char_text = f_char b,
             year = f_year b,
             numReviews = 0,
             rating = schema_default_rating,
             reviews = []\<rparr>
      in (Inr \<lparr>status = 201, body = product\<rparr>, insert_doc product db))"

text \<open>
  \<^verbatim>\<open>createProductReview\<close>. The request's rating enters as the number \<^verbatim>\<open>Number(rating)\<close>
  denotes. \<^verbatim>\<open>reduce((acc, item) => item.rating + acc, 0)\<close> is a left fold from 0.
\<close>

definition createProductReview ::
  "collection \<Rightarrow> oid \<Rightarrow> caller \<Rightarrow> rat \<Rightarrow> string
     \<Rightarrow> (failure + string response) \<times> collection" where
  "createProductReview db i u rating_in comment_in =
     (case findById i db of
        Some product \<Rightarrow>
          (case find (\<lambda>r. review_user r = caller_id u) (reviews product) of
             Some alreadyReviewed \<Rightarrow> (Inl (Failure 400 ''Product already reviewed''), db)
           | None \<Rightarrow>
               (let review = \<lparr>review_name = caller_name u,
                              review_rating = rating_in,
                              review_comment = comment_in,
                              review_user = caller_id u\<rparr>;
                    product1 = product\<lparr>reviews := reviews product @ [review]\<rparr>;
                    product2 = product1\<lparr>numReviews := length (reviews product1)\<rparr>;
                    product3 = product2
                      \<lparr>rating := fold (\<lambda>item acc. review_rating item + acc) (reviews product2) 0
                                  / of_nat (length (reviews product2))\<rparr>
                in (Inr \<lparr>status = 201, body = ''Review added''\<rparr>, save product3 db)))
      | None \<Rightarrow> (Inl (Failure 404 ''Product not found''), db))"

text \<open>
  The collections that the four mutating handlers can produce from the empty one. A new
  document gets an identifier that no stored document has.
\<close>

inductive reachable :: "collection \<Rightarrow> bool" where
  reach_empty: "reachable []"
| reach_create:
    "reachable db \<Longrightarrow> fresh \<notin> pid ` set db \<Longrightarrow> reachable (snd (createProduct db fresh u b))"
| reach_update: "reachable db \<Longrightarrow> reachable (snd (updateProduct db i b))"
| reach_delete:
    "reachable db \<Longrightarrow>
     reachable (docs (fst (snd (deleteProduct pjoin cwd \<lparr>docs = db, files = fs\<rparr> i))))"
| reach_review: "reachable db \<Longrightarrow> reachable (snd (createProductReview db i u r c))"

section \<open>The store's regular-expression engine\<close>

text \<open>
  \<^verbatim>\<open>getProducts\<close> hands the keyword to the store as \<^verbatim>\<open>{$regex: keyword, $options: 'i'}\<close>.
  The engine is modelled on a fragment and left open beyond it. The fragment is: a
  pattern of ASCII characters built from literal characters, the dot, and one of the
  quantifiers \<^verbatim>\<open>*\<close>, \<^verbatim>\<open>+\<close>, \<^verbatim>\<open>?\<close> after a character or a dot; the options string empty or
  \<^verbatim>\<open>i\<close>; a subject string of ASCII characters. A pattern that begins with a quantifier is
  one the store rejects. Every other pattern (groups, classes, anchors, alternation,
  escapes, lazy and possessive quantifiers, non-ASCII text), every other options string
  and every non-ASCII subject is decided by the parameter \<open>beyond\<close>, about which nothing
  is assumed.
\<close>

type_synonym engine = "string \<Rightarrow> string \<Rightarrow> (string \<Rightarrow> bool) option"

record beyond =
  other_pattern :: engine
  other_subject :: "string \<Rightarrow> string \<Rightarrow> string \<Rightarrow> bool"

definition ascii :: "string \<Rightarrow> bool" where
  "ascii s = list_all (\<lambda>c. of_char c < (128::nat)) s"

text \<open>Caseless matching folds the letters A to Z onto a to z.\<close>

definition to_lower :: "char \<Rightarrow> char" where
  \<comment> \<open>adding 32 to a code between 65 and 90 sets bit 5, which is clear there\<close>
  "to_lower c =
     (if CHR ''A'' \<le> c \<and> c \<le> CHR ''Z''
      then (case c of Char b0 b1 b2 b3 b4 b5 b6 b7 \<Rightarrow> Char b0 b1 b2 b3 b4 True b6 b7)
      else c)"

datatype atom = Lit char | AnyChar

datatype quant = Once | Star | Plus | Opt

type_synonym regex = "(atom \<times> quant) list"

datatype parsed = Compiled regex | Malformed | Outside

definition quant_of :: "char \<Rightarrow> quant option" where
  "quant_of c =
     (if c = CHR ''*'' then Some Star
      else if c = CHR ''+'' then Some Plus
      else if c = CHR ''?'' then Some Opt
      else None)"

definition metachars :: "char list" where
  "metachars = [CHR 0x5C, CHR ''^'', CHR ''$'', CHR ''.'', CHR ''|'', CHR ''?'', CHR ''*'',
                CHR ''+'', CHR ''('', CHR '')'', CHR ''['', CHR '']'', CHR ''{'', CHR ''}'']"

definition atom_of :: "char \<Rightarrow> atom option" where
  "atom_of c =
     (if c = CHR ''.'' then Some AnyChar
      else if c \<in> set metachars \<or> \<not> of_char c < (128::nat) then None
      else Some (Lit c))"

text \<open>The items of a pattern that starts with an atom; \<open>None\<close> outside the fragment.\<close>

fun items :: "string \<Rightarrow> regex option" where
  "items [] = Some []"
| "items [c] = (case atom_of c of None \<Rightarrow> None | Some a \<Rightarrow> Some [(a, Once)])"
| "items (c # d # cs) =
     (case atom_of c of
        None \<Rightarrow> None
      | Some a \<Rightarrow>
          (case quant_of d of
             None \<Rightarrow> map_option ((#) (a, Once)) (items (d # cs))
           | Some q \<Rightarrow>
               (if cs \<noteq> [] \<and> quant_of (hd cs) \<noteq> None then None
                else map_option ((#) (a, q)) (items cs))))"

definition parse :: "string \<Rightarrow> parsed" where
  "parse pattern =
     (if pattern \<noteq> [] \<and> quant_of (hd pattern) \<noteq> None then Malformed
      else (case items pattern of None \<Rightarrow> Outside | Some r \<Rightarrow> Compiled r))"

fun atom_ok :: "bool \<Rightarrow> atom \<Rightarrow> char \<Rightarrow> bool" where
  "atom_ok caseless (Lit a) c = (if caseless then to_lower a = to_lower c else a = c)"
| "atom_ok caseless AnyChar c = (c \<noteq> CHR 0x0A)"

text \<open>\<open>match_here i r s\<close>: some prefix of \<open>s\<close> matches the whole of \<open>r\<close>.\<close>

function match_here :: "bool \<Rightarrow> regex \<Rightarrow> string \<Rightarrow> bool" where
  "match_here i [] s = True"
| "match_here i ((a, Once) # r) [] = False"
| "match_here i ((a, Once) # r) (c # s) = (atom_ok i a c \<and> match_here i r s)"
| "match_here i ((a, Opt) # r) [] = match_here i r []"
| "match_here i ((a, Opt) # r) (c # s) =
     (match_here i r (c # s) \<or> (atom_ok i a c \<and> match_here i r s))"
| "match_here i ((a, Star) # r) [] = match_here i r []"
| "match_here i ((a, Star) # r) (c # s) =
     (match_here i r (c # s) \<or> (atom_ok i a c \<and> match_here i ((a, Star) # r) s))"
| "match_here i ((a, Plus) # r) [] = False"
| "match_here i ((a, Plus) # r) (c # s) = (atom_ok i a c \<and> match_here i ((a, Star) # r) s)"
  by pat_completeness auto
termination
  by (relation "measure (\<lambda>(i, r, s). length r + 2 * length s)") auto

text \<open>The unanchored search: the pattern matches at some position of the string.\<close>

fun search :: "bool \<Rightarrow> regex \<Rightarrow> string \<Rightarrow> bool" where
  "search i r [] = match_here i r []"
| "search i r (c # s) = (match_here i r (c # s) \<or> search i r s)"

definition store_regex :: "beyond \<Rightarrow> engine" where
  "store_regex b pattern options =
     (if options \<noteq> ''i'' \<and> options \<noteq> [] then other_pattern b pattern options
      else (case parse pattern of
              Malformed \<Rightarrow> None
            | Outside \<Rightarrow> other_pattern b pattern options
            | Compiled r \<Rightarrow>
                Some (\<lambda>s. if ascii s then search (options = ''i'') r s
                          else other_subject b pattern options s)))"

text \<open>
  The reading of the keyword as plain text, in the specification's words: the name
  contains the keyword as a contiguous substring, letter case ignored. Two characters
  are the same letter when they are equal or one is a capital (codes 65 to 90) and the
  other the small letter of it (32 more).
\<close>

definition same_letter :: "char \<Rightarrow> char \<Rightarrow> bool" where
  "same_letter a b =
     (a = b
      \<or> ((65::nat) \<le> of_char a \<and> of_char a \<le> (90::nat) \<and> of_char b = of_char a + (32::nat))
      \<or> ((65::nat) \<le> of_char b \<and> of_char b \<le> (90::nat) \<and> of_char a = of_char b + (32::nat)))"

fun starts_ci :: "string \<Rightarrow> string \<Rightarrow> bool" where
  "starts_ci [] s = True"
| "starts_ci (a # k) [] = False"
| "starts_ci (a # k) (c # s) = (same_letter a c \<and> starts_ci k s)"

fun contains_ci :: "string \<Rightarrow> string \<Rightarrow> bool" where
  "contains_ci k [] = starts_ci k []"
| "contains_ci k (c # s) = (starts_ci k (c # s) \<or> contains_ci k s)"


section \<open>Listings\<close>

text \<open>
  Query options of the store: \<^verbatim>\<open>skip(n)\<close> drops the first \<open>n\<close> matches, \<^verbatim>\<open>limit(n)\<close> keeps
  at most \<open>n\<close> of the rest, and a limit of 0 means no limit. The store applies the skip
  before the limit whatever the order of the two calls on the query.
\<close>

definition skip :: "nat \<Rightarrow> 'a list \<Rightarrow> 'a list" where
  "skip n xs = drop n xs"

definition limit :: "nat \<Rightarrow> 'a list \<Rightarrow> 'a list" where
  "limit n xs = (if n = 0 then xs else take n xs)"

text \<open>
  \<^verbatim>\<open>Math.ceil(count / pageSize)\<close> as \<^verbatim>\<open>res.json\<close> writes it: a division by zero gives
  \<^verbatim>\<open>Infinity\<close> or \<^verbatim>\<open>NaN\<close>, which JSON serialises as \<^verbatim>\<open>null\<close>.
\<close>

definition ceil_pages :: "nat \<Rightarrow> nat \<Rightarrow> nat option" where
  "ceil_pages count pageSize =
     (if pageSize = 0 then None
      else Some (nat \<lceil>(of_nat count :: rat) / of_nat pageSize\<rceil>))"

text \<open>
  \<^verbatim>\<open>process.env.PAGINATION_LIMIT || 10\<close>. The environment value is \<open>None\<close> when the variable
  is unset or empty, and \<open>Some n\<close> when it is the decimal string of \<open>n\<close> (the string
  \<^verbatim>\<open>"0"\<close> is truthy, so \<open>Some 0\<close> gives 0). \<^verbatim>\<open>Number(req.query.pageNumber) || 1\<close> likewise:
  \<open>None\<close> is an absent or non-numeric parameter, and 0 is falsy.
\<close>

definition pageSize_of :: "nat option \<Rightarrow> nat" where
  "pageSize_of env = (case env of None \<Rightarrow> 10 | Some n \<Rightarrow> n)"

definition page_of :: "nat option \<Rightarrow> nat" where
  "page_of pageNumber = (case pageNumber of None \<Rightarrow> 1 | Some n \<Rightarrow> if n = 0 then 1 else n)"

text \<open>
  \<^verbatim>\<open>getProducts\<close> and the keyword. A truthy keyword becomes the filter
  \<^verbatim>\<open>{name: {$regex: keyword, $options: 'i'}}\<close>: the engine \<open>rx\<close> of the store gets the keyword
  as the pattern and \<^verbatim>\<open>i\<close> as the options, and the predicate it returns is put to the
  product's name. When the engine rejects the pattern, the query is rejected.
\<close>

record listing =
  products :: "product list"
  page :: nat
  pages :: "nat option"

definition keyword_filter :: "engine \<Rightarrow> string option \<Rightarrow> (product \<Rightarrow> bool) option" where
  "keyword_filter rx keyword =
     (case keyword of
        None \<Rightarrow> Some (\<lambda>p. True)
      | Some k \<Rightarrow>
          if k = [] then Some (\<lambda>p. True)
          else (case rx k ''i'' of None \<Rightarrow> None | Some m \<Rightarrow> Some (\<lambda>p. m (name p))))"

definition getProducts ::
  "engine \<Rightarrow> nat option \<Rightarrow> collection \<Rightarrow> string option \<Rightarrow> nat option
     \<Rightarrow> failure + listing response" where
  "getProducts rx env db keyword pageNumber =
     (let pageSize = pageSize_of env;
          page = page_of pageNumber
      in case keyword_filter rx keyword of
           None \<Rightarrow> Inl Unhandled
         | Some f \<Rightarrow>
             (let count = length (filter f db);
                  products = limit pageSize (skip (pageSize * (page - 1)) (filter f db))
              in Inr (ok \<lparr>products = products, page = page,
                           pages = ceil_pages count pageSize\<rparr>)))"

text \<open>
  The category listing. \<^verbatim>\<open>$group\<close> with \<^verbatim>\<open>_id: null\<close> emits one document for a non-empty
  input and none for an empty one.
\<close>

fun group_min_max :: "rat list \<Rightarrow> (rat \<times> rat) list" where
  "group_min_max [] = []"
| "group_min_max (x # xs) = [(fold min xs x, fold max xs x)]"

record category_listing = listing +
  category_param :: string
  minPrice :: "rat option"
  maxPrice :: "rat option"

definition category_filter :: "string \<Rightarrow> product \<Rightarrow> bool" where
  "category_filter c = (if c \<noteq> [] then (\<lambda>p. category p = c) else (\<lambda>p. True))"

definition getProductsByCategory ::
  "nat option \<Rightarrow> collection \<Rightarrow> string \<Rightarrow> nat option \<Rightarrow> category_listing response" where
  "getProductsByCategory env db c pageNumber =
     (let pageSize = pageSize_of env;
          page = page_of pageNumber;
          minMaxPrice = group_min_max (map price (filter (category_filter c) db));
          count = length (filter (category_filter c) db);
          products = limit pageSize (skip (pageSize * (page - 1)) (filter (category_filter c) db))
      in \<lparr>status = (if length products = 0 then 404 else 200),
          body = \<lparr>products = products, page = page, pages = ceil_pages count pageSize,
                  category_param = c,
                  minPrice = (case minMaxPrice of [] \<Rightarrow> None | g # _ \<Rightarrow> Some (fst g)),
                  maxPrice = (case minMaxPrice of [] \<Rightarrow> None | g # _ \<Rightarrow> Some (snd g))\<rparr>\<rparr>)"

section \<open>Top products and distinct values\<close>

text \<open>\<^verbatim>\<open>sort({rating: -1})\<close> orders by descending rating; \<^verbatim>\<open>limit(3)\<close> keeps three.\<close>

definition getTopProducts :: "collection \<Rightarrow> product list response" where
  "getTopProducts db = ok (limit 3 (sort_key (\<lambda>p. - rating p) db))"

text \<open>
  A \<^verbatim>\<open>$group\<close> stage keyed by a field emits one document for each distinct key. The store
  does not fix their order; the model lists the keys in the order \<open>remdups\<close> leaves them.
\<close>

definition group_keys :: "'a list \<Rightarrow> 'a list" where
  "group_keys ks = remdups ks"

text \<open>\<^verbatim>\<open>Array.prototype.sort()\<close> without a comparator orders strings by code unit.\<close>

definition getAllBrands :: "collection \<Rightarrow> string list response" where
  "getAllBrands db = ok (sort (group_keys (map brand db)))"

definition getAllColors :: "collection \<Rightarrow> string list response" where
  "getAllColors db = ok (group_keys (concat (map colors db)))"

text \<open>A year in the response is a JSON value that may be \<^verbatim>\<open>null\<close>, hence the option.\<close>

definition getAllYears :: "collection \<Rightarrow> int option list response" where
  "getAllYears db = ok (group_keys (map year (filter (\<lambda>p. year p \<noteq> None) db)))"

section \<open>Sample data\<close>

text \<open>
  A small catalogue for evaluating the handlers: the widget of the specification's
  end-to-end example with one review by Ann, and a gadget whose image is an external URL.
\<close>

definition ann :: caller where
  "ann = \<lparr>caller_id = 1, caller_name = ''Ann''\<rparr>"

definition bob :: caller where
  "bob = \<lparr>caller_id = 2, caller_name = ''Bob''\<rparr>"

definition ann_review :: review where
  "ann_review = \<lparr>review_name = ''Ann'', review_rating = 4, review_comment = ''ok'',
                  review_user = 1\<rparr>"

definition widget :: product where
  "widget = \<lparr>pid = 7, user = 0, name = ''Widget'', price = 999 / 100,
              description = ''A widget'', image_path = ''/uploads/widget.png'',
              brand = ''Acme'', category = ''tools'', countInStock = 5,
              colors = [''red'', ''blue''], char_text = ''steel'', year = Some 2020,
              numReviews = 1, rating = 4, reviews = [ann_review]\<rparr>"

definition gadget :: product where
  "gadget = \<lparr>pid = 8, user = 0, name = ''Gadget'', price = 25,
              description = ''A gadget'', image_path = ''https://cdn.example.com/g.png'',
              brand = ''Bolt'', category = ''toys'', countInStock = 0,
              colors = [''red''], char_text = ''tin'', year = None,
              numReviews = 0, rating = 0, reviews = []\<rparr>"

definition new_fields :: fields where
  "new_fields = \<lparr>f_name = ''Widget 2'', f_price = 12, f_description = ''Better'',
                  f_image = ''/uploads/w2.png'', f_brand = ''Acme'', f_category = ''tools'',
                  f_countInStock = 3, f_colors = [''green''], f_char = ''brass'',
                  f_year = Some 2021\<rparr>"

text \<open>
  An instance of what lies beyond the fragment of the engine, for running the handlers
  on this catalogue, whose keywords and names are inside the fragment: it accepts
  nothing more.
\<close>

definition nothing_beyond :: beyond where
  "nothing_beyond = \<lparr>other_pattern = (\<lambda>pattern options. None),
                       other_subject = (\<lambda>pattern options s. False)\<rparr>"

section \<open>Facts about the store\<close>

lemma findById_Some_pid: "findById i db = Some p \<Longrightarrow> pid p = i"
  by (auto simp: findById_def find_Some_iff)

lemma findById_Some_mem: "findById i db = Some p \<Longrightarrow> p \<in> set db"
  by (auto simp: findById_def find_Some_iff)

lemma findById_None_iff: "findById i db = None \<longleftrightarrow> i \<notin> pid ` set db"
  by (auto simp: findById_def find_None_iff)

lemma findById_mem_ex: "i \<in> pid ` set db \<Longrightarrow> \<exists>p. findById i db = Some p"
  by (cases "findById i db") (auto simp: findById_None_iff)

lemma findById_distinct:
  "p \<in> set db \<Longrightarrow> distinct (map pid db) \<Longrightarrow> findById (pid p) db = Some p"
  unfolding findById_def by (induction db) (auto simp: image_iff)

section \<open>Missing and present identifiers\<close>

text \<open>
  Claim C5. When no stored product has the identifier, retrieval, update and deletion
  each throw \<^verbatim>\<open>Product not found\<close> under status 404, and the collection and the files
  are as before, with no call made on the file system or the store. When some stored
  product has the identifier, retrieval sends a stored record with that identifier
  under status 200, whole (its reviews included); with unique identifiers it is the
  record itself.
\<close>

theorem not_found_and_retrieval:
  "(i \<notin> pid ` set db \<longrightarrow>
      getProductById db i = Inl (Failure 404 ''Product not found'')
    \<and> updateProduct db i b = (Inl (Failure 404 ''Product not found''), db)
    \<and> deleteProduct pjoin cwd \<lparr>docs = db, files = fs\<rparr> i
        = (Inl (Failure 404 ''Product not found''), \<lparr>docs = db, files = fs\<rparr>, []))
   \<and> (i \<in> pid ` set db \<longrightarrow>
        (\<exists>p. p \<in> set db \<and> pid p = i
           \<and> getProductById db i = Inr \<lparr>status = 200, body = p\<rparr>))
   \<and> (p \<in> set db \<and> distinct (map pid db) \<longrightarrow>
        getProductById db (pid p) = Inr \<lparr>status = 200, body = p\<rparr>)"
proof (intro conjI impI)
  assume "i \<notin> pid ` set db"
  then have n: "findById i db = None" by (simp add: findById_None_iff)
  show "getProductById db i = Inl (Failure 404 ''Product not found'')"
    by (simp add: getProductById_def n)
  show "updateProduct db i b = (Inl (Failure 404 ''Product not found''), db)"
    by (simp add: updateProduct_def n)
  show "deleteProduct pjoin cwd \<lparr>docs = db, files = fs\<rparr> i
        = (Inl (Failure 404 ''Product not found''), \<lparr>docs = db, files = fs\<rparr>, [])"
    by (simp add: deleteProduct_def n)
next
  assume "i \<in> pid ` set db"
  then obtain p where s: "findById i db = Some p" using findById_mem_ex by blast
  then have "p \<in> set db" "pid p = i"
    by (auto dest: findById_Some_mem findById_Some_pid)
  moreover have "getProductById db i = Inr \<lparr>status = 200, body = p\<rparr>"
    by (simp add: getProductById_def s ok_def)
  ultimately show "\<exists>p. p \<in> set db \<and> pid p = i
           \<and> getProductById db i = Inr \<lparr>status = 200, body = p\<rparr>" by blast
next
  assume "p \<in> set db \<and> distinct (map pid db)"
  then have "findById (pid p) db = Some p" by (simp add: findById_distinct)
  then show "getProductById db (pid p) = Inr \<lparr>status = 200, body = p\<rparr>"
    by (simp add: getProductById_def ok_def)
qed

theorem not_found_and_retrieval_witness:
  "getProductById [widget, gadget] 9 = Inl (Failure 404 ''Product not found'')
   \<and> updateProduct [widget, gadget] 9 new_fields
       = (Inl (Failure 404 ''Product not found''), [widget, gadget])
   \<and> deleteProduct (@) ''/srv'' \<lparr>docs = [widget, gadget], files = Map.empty\<rparr> 9
       = (Inl (Failure 404 ''Product not found''),
          \<lparr>docs = [widget, gadget], files = Map.empty\<rparr>, [])
   \<and> getProductById [widget, gadget] (pid gadget) = Inr \<lparr>status = 200, body = gadget\<rparr>
   \<and> reviews (body (projr (getProductById [widget, gadget] 7))) = [ann_review]"
  using not_found_and_retrieval [of 9 "[widget, gadget]" new_fields "(@)" "''/srv''" Map.empty
      gadget]
    not_found_and_retrieval [of 7 "[widget, gadget]" new_fields "(@)" "''/srv''" Map.empty widget]
  by (simp add: widget_def gadget_def)

section \<open>Creating a review\<close>

lemma fold_rating_sum:
  "fold (\<lambda>item acc. review_rating item + acc) rs a = sum_list (map review_rating rs) + a"
  by (induction rs arbitrary: a) (simp_all add: algebra_simps)

lemma findById_save:
  "findById i db = Some p \<Longrightarrow> pid d = i \<Longrightarrow> findById i (save d db) = Some d"
  unfolding findById_def save_def by (induction db) (auto split: if_splits)

lemma set_save: "set (save d db) \<subseteq> insert d (set db)"
  by (auto simp: save_def)

lemma set_deleteOne: "set (deleteOne i db) \<subseteq> set db"
  by (induction db) auto

lemma deleteProduct_docs:
  "set (docs (fst (snd (deleteProduct pjoin cwd w i)))) \<subseteq> set (docs w)"
  using set_deleteOne [of "pid (the (findById i (docs w)))" "docs w"]
  by (auto simp: deleteProduct_def remove_record_def Let_def split: option.splits node.splits)

lemma deleteOne_distinct:
  "distinct (map pid db) \<Longrightarrow> set (deleteOne i db) = {q \<in> set db. pid q \<noteq> i}"
  by (induction db) (auto simp: image_iff)

lemma createProductReview_fresh:
  assumes "findById i db = Some p"
    and "caller_id u \<notin> review_user ` set (reviews p)"
  shows "\<exists>p'. createProductReview db i u x c
                = (Inr \<lparr>status = 201, body = ''Review added''\<rparr>,
                   map (\<lambda>q. if pid q = i then p' else q) db)
          \<and> findById i (snd (createProductReview db i u x c)) = Some p'
          \<and> reviews p' = reviews p @ [\<lparr>review_name = caller_name u, review_rating = x,
                                         review_comment = c, review_user = caller_id u\<rparr>]
          \<and> numReviews p' = length (reviews p')
          \<and> numReviews p' = Suc (length (reviews p))
          \<and> rating p' = sum_list (map review_rating (reviews p')) / of_nat (length (reviews p'))
          \<and> p' = p\<lparr>reviews := reviews p', numReviews := numReviews p', rating := rating p'\<rparr>"
proof -
  define r where "r = \<lparr>review_name = caller_name u, review_rating = x,
                        review_comment = c, review_user = caller_id u\<rparr>"
  define p' where "p' = p\<lparr>reviews := reviews p @ [r],
       numReviews := Suc (length (reviews p)),
       rating := fold (\<lambda>item acc. review_rating item + acc) (reviews p @ [r]) 0
                   / of_nat (Suc (length (reviews p)))\<rparr>"
  have i: "pid p = i" using assms(1) by (rule findById_Some_pid)
  have nf: "find (\<lambda>r. review_user r = caller_id u) (reviews p) = None"
    using assms(2) by (force simp: find_None_iff image_iff)
  have run: "createProductReview db i u x c
             = (Inr \<lparr>status = 201, body = ''Review added''\<rparr>, save p' db)"
    by (simp add: createProductReview_def assms(1) nf Let_def p'_def r_def)
  have sv: "save p' db = map (\<lambda>q. if pid q = i then p' else q) db"
    by (simp add: save_def p'_def i)
  have fb: "findById i (save p' db) = Some p'"
    using assms(1) by (rule findById_save) (simp add: p'_def i)
  have rt: "rating p' = sum_list (map review_rating (reviews p')) / of_nat (length (reviews p'))"
    by (simp add: p'_def fold_rating_sum del: fold_append)
  show ?thesis
    apply (rule exI [of _ p'])
    apply (intro conjI)
          apply (simp add: run sv)
         apply (simp add: run fb)
        apply (simp add: p'_def r_def)
       apply (simp add: p'_def)
      apply (simp add: p'_def)
     apply (rule rt)
    apply (simp add: p'_def)
    done
qed

text \<open>
  Claim C1. When the store finds the product and none of its reviews carries the
  caller's identifier, \<^verbatim>\<open>createProductReview\<close> answers 201 with \<^verbatim>\<open>Review added\<close> and writes
  back, in one \<^verbatim>\<open>save\<close>, the product with exactly one review appended (the caller's
  name, the rating, the comment, the caller's identifier), \<open>numReviews\<close> equal to the new
  number of reviews, which is one more than before, and \<open>rating\<close> equal to the sum of the
  review ratings divided by their number. Every other field of the product and every
  other document is as before.
\<close>

theorem review_created:
  assumes "findById i db = Some p"
    and "caller_id u \<notin> review_user ` set (reviews p)"
  shows "\<exists>p'. createProductReview db i u x c
                = (Inr \<lparr>status = 201, body = ''Review added''\<rparr>,
                   map (\<lambda>q. if pid q = i then p' else q) db)
          \<and> findById i (snd (createProductReview db i u x c)) = Some p'
          \<and> reviews p' = reviews p @ [\<lparr>review_name = caller_name u, review_rating = x,
                                         review_comment = c, review_user = caller_id u\<rparr>]
          \<and> numReviews p' = length (reviews p')
          \<and> numReviews p' = Suc (length (reviews p))
          \<and> rating p' = sum_list (map review_rating (reviews p')) / of_nat (length (reviews p'))
          \<and> p' = p\<lparr>reviews := reviews p', numReviews := numReviews p', rating := rating p'\<rparr>"
  using assms by (rule createProductReview_fresh)

theorem review_created_witness:
  "createProductReview [widget, gadget] 7 bob 2 ''meh''
     = (Inr \<lparr>status = 201, body = ''Review added''\<rparr>,
        [widget\<lparr>reviews := [ann_review, \<lparr>review_name = ''Bob'', review_rating = 2,
                                          review_comment = ''meh'', review_user = 2\<rparr>],
                numReviews := 2, rating := 3\<rparr>,
         gadget])"
proof -
  have f: "findById 7 [widget, gadget] = Some widget"
    by (simp add: findById_def widget_def)
  have n: "caller_id bob \<notin> review_user ` set (reviews widget)"
    by (simp add: bob_def widget_def ann_review_def)
  from review_created [OF f n, of 2 "''meh''"] obtain p' where
    run: "createProductReview [widget, gadget] 7 bob 2 ''meh''
           = (Inr \<lparr>status = 201, body = ''Review added''\<rparr>,
              map (\<lambda>q. if pid q = 7 then p' else q) [widget, gadget])"
    and rv: "reviews p' = reviews widget @ [\<lparr>review_name = caller_name bob, review_rating = 2,
                                         review_comment = ''meh'', review_user = caller_id bob\<rparr>]"
    and nr: "numReviews p' = Suc (length (reviews widget))"
    and rt: "rating p' = sum_list (map review_rating (reviews p')) / of_nat (length (reviews p'))"
    and eq: "p' = widget\<lparr>reviews := reviews p', numReviews := numReviews p', rating := rating p'\<rparr>"
    by blast
  have "rating p' = 3" unfolding rt rv by (simp add: widget_def ann_review_def)
  moreover have "numReviews p' = 2" unfolding nr by (simp add: widget_def)
  moreover have "reviews p' = [ann_review, \<lparr>review_name = ''Bob'', review_rating = 2,
                                          review_comment = ''meh'', review_user = 2\<rparr>]"
    unfolding rv by (simp add: widget_def bob_def)
  ultimately have "p' = widget\<lparr>reviews := [ann_review, \<lparr>review_name = ''Bob'', review_rating = 2,
                                          review_comment = ''meh'', review_user = 2\<rparr>],
                numReviews := 2, rating := 3\<rparr>"
    using eq by simp
  then show ?thesis unfolding run by (simp add: widget_def gadget_def)
qed

section \<open>One review per caller\<close>

lemma duplicate_review_rejected:
  assumes "findById i db = Some p"
    and "caller_id u \<in> review_user ` set (reviews p)"
  shows "createProductReview db i u x c = (Inl (Failure 400 ''Product already reviewed''), db)"
proof -
  from assms(2) have "find (\<lambda>r. review_user r = caller_id u) (reviews p) \<noteq> None"
    by (auto simp: find_None_iff)
  then obtain r where "find (\<lambda>r. review_user r = caller_id u) (reviews p) = Some r"
    by blast
  then show ?thesis
    by (simp add: createProductReview_def assms(1))
qed

lemma createProductReview_keeps_distinct:
  assumes inv: "\<forall>p\<in>set db. distinct (map review_user (reviews p))"
  shows "\<forall>p\<in>set (snd (createProductReview db i u x c)). distinct (map review_user (reviews p))"
proof (cases "findById i db")
  case None
  then show ?thesis using inv by (simp add: createProductReview_def)
next
  case (Some p)
  have pin: "p \<in> set db" using Some by (rule findById_Some_mem)
  show ?thesis
  proof (cases "find (\<lambda>r. review_user r = caller_id u) (reviews p)")
    case (Some r)
    then show ?thesis using inv \<open>findById i db = Some p\<close>
      by (simp add: createProductReview_def)
  next
    case None
    then have fresh: "caller_id u \<notin> review_user ` set (reviews p)"
      by (force simp: find_None_iff image_iff)
    from createProductReview_fresh [OF \<open>findById i db = Some p\<close> fresh, of x c]
    obtain p' where run: "createProductReview db i u x c
                = (Inr \<lparr>status = 201, body = ''Review added''\<rparr>,
                   map (\<lambda>q. if pid q = i then p' else q) db)"
      and rv: "reviews p' = reviews p @ [\<lparr>review_name = caller_name u, review_rating = x,
                                          review_comment = c, review_user = caller_id u\<rparr>]"
      by blast
    have "distinct (map review_user (reviews p'))"
      using inv pin fresh by (simp add: rv)
    then show ?thesis
      using inv unfolding run by auto
  qed
qed

lemma reachable_distinct_reviews:
  "reachable db \<Longrightarrow> \<forall>p\<in>set db. distinct (map review_user (reviews p))"
proof (induction rule: reachable.induct)
  case reach_empty
  show ?case by simp
next
  case (reach_create db fresh u b)
  then show ?case by (simp add: createProduct_def insert_doc_def Let_def)
next
  case (reach_update db i b)
  show ?case
  proof (cases "findById i db")
    case None
    then show ?thesis using reach_update.IH by (simp add: updateProduct_def)
  next
    case (Some p)
    then have "p \<in> set db" by (rule findById_Some_mem)
    then have "distinct (map review_user (reviews p))" using reach_update.IH by blast
    then show ?thesis
      using reach_update.IH Some
        set_save [of "p\<lparr>name := f_name b, price := f_price b, description := f_description b,
                        image_path := f_image b, brand := f_brand b, category := f_category b,
                        countInStock := f_countInStock b, colors := f_colors b,
                        char_text := f_char b, year := f_year b\<rparr>" db]
      by (auto simp: updateProduct_def Let_def)
  qed
next
  case (reach_delete db pjoin cwd fs i)
  then show ?case
    using deleteProduct_docs [of pjoin cwd "\<lparr>docs = db, files = fs\<rparr>" i] by auto
next
  case (reach_review db i u r c)
  from reach_review.IH show ?case by (rule createProductReview_keeps_distinct)
qed

text \<open>
  Claim C2. When some review of the product found for the id carries the caller's
  identifier, \<^verbatim>\<open>createProductReview\<close> throws \<^verbatim>\<open>Product already reviewed\<close> under status 400
  and the collection (so the product's reviews, \<open>numReviews\<close> and \<open>rating\<close>) is as before.
  Hence in every collection that the handlers produce from the empty one, no two reviews
  of a product carry the same user reference.
\<close>

theorem one_review_per_caller:
  "(findById i db = Some p \<and> caller_id u \<in> review_user ` set (reviews p) \<longrightarrow>
      createProductReview db i u x c = (Inl (Failure 400 ''Product already reviewed''), db))
   \<and> (reachable db' \<longrightarrow> (\<forall>q\<in>set db'. distinct (map review_user (reviews q))))"
  using duplicate_review_rejected reachable_distinct_reviews by blast

theorem one_review_per_caller_witness:
  "createProductReview [widget, gadget] 7 ann 5 ''again''
     = (Inl (Failure 400 ''Product already reviewed''), [widget, gadget])
   \<and> reachable (snd (createProductReview (snd (createProduct [] 7 ann new_fields)) 7 bob 4 ''ok''))
   \<and> map (map review_user \<circ> reviews)
        (snd (createProductReview (snd (createProduct [] 7 ann new_fields)) 7 bob 4 ''ok''))
      = [[2]]"
proof -
  have f: "findById 7 [widget, gadget] = Some widget"
    by (simp add: findById_def widget_def)
  have d: "caller_id ann \<in> review_user ` set (reviews widget)"
    by (simp add: ann_def widget_def ann_review_def)
  have r: "reachable (snd (createProductReview (snd (createProduct [] 7 ann new_fields)) 7 bob 4 ''ok''))"
    by (intro reach_review reach_create reach_empty) simp
  have v: "map (map review_user \<circ> reviews)
        (snd (createProductReview (snd (createProduct [] 7 ann new_fields)) 7 bob 4 ''ok''))
      = [[2]]"
    by (simp add: createProductReview_def createProduct_def insert_doc_def findById_def
        save_def bob_def ann_def Let_def)
  show ?thesis
    using one_review_per_caller [of 7 "[widget, gadget]" widget ann 5 "''again''"
        "snd (createProductReview (snd (createProduct [] 7 ann new_fields)) 7 bob 4 ''ok'')"]
      f d r v by simp
qed

section \<open>Updating a product\<close>

lemma updateProduct_found:
  "findById i db = Some p \<Longrightarrow>
   updateProduct db i b =
     (Inr \<lparr>status = 200,
           body = p\<lparr>name := f_name b, price := f_price b, description := f_description b,
                    image_path := f_image b, brand := f_brand b, category := f_category b,
                    countInStock := f_countInStock b, colors := f_colors b,
                    char_text := f_char b, year := f_year b\<rparr>\<rparr>,
      map (\<lambda>q. if pid q = i
                then p\<lparr>name := f_name b, price := f_price b, description := f_description b,
                    image_path := f_image b, brand := f_brand b, category := f_category b,
                    countInStock := f_countInStock b, colors := f_colors b,
                    char_text := f_char b, year := f_year b\<rparr>
                else q) db)"
  by (simp add: updateProduct_def Let_def ok_def save_def findById_Some_pid)

text \<open>
  Claim C10. When the store finds the product, \<^verbatim>\<open>updateProduct\<close> sends, under status 200,
  the product with its ten body fields replaced by the request's and with its
  identifier, owner, reviews, \<open>numReviews\<close> and \<open>rating\<close> as they were; that product is
  what the store then holds under the identifier, and every document with another
  identifier is untouched.
\<close>

theorem update_frame:
  assumes "findById i db = Some p"
  shows "\<exists>p'. updateProduct db i b
                = (Inr \<lparr>status = 200, body = p'\<rparr>,
                   map (\<lambda>q. if pid q = i then p' else q) db)
          \<and> findById i (snd (updateProduct db i b)) = Some p'
          \<and> pid p' = pid p \<and> user p' = user p \<and> reviews p' = reviews p
          \<and> numReviews p' = numReviews p \<and> rating p' = rating p
          \<and> name p' = f_name b \<and> price p' = f_price b \<and> description p' = f_description b
          \<and> image_path p' = f_image b \<and> brand p' = f_brand b \<and> category p' = f_category b
          \<and> countInStock p' = f_countInStock b \<and> colors p' = f_colors b
          \<and> char_text p' = f_char b \<and> year p' = f_year b"
proof -
  define p' where
    "p' = p\<lparr>name := f_name b, price := f_price b, description := f_description b,
            image_path := f_image b, brand := f_brand b, category := f_category b,
            countInStock := f_countInStock b, colors := f_colors b,
            char_text := f_char b, year := f_year b\<rparr>"
  have run: "updateProduct db i b
               = (Inr \<lparr>status = 200, body = p'\<rparr>, map (\<lambda>q. if pid q = i then p' else q) db)"
    unfolding p'_def using assms by (rule updateProduct_found)
  have i: "pid p' = i" using assms by (simp add: p'_def findById_Some_pid)
  have sv: "map (\<lambda>q. if pid q = i then p' else q) db = save p' db"
    by (simp add: save_def i)
  have fb: "findById i (snd (updateProduct db i b)) = Some p'"
    unfolding run sv snd_conv using assms i by (rule findById_save)
  show ?thesis
    apply (rule exI [of _ p'])
    apply (intro conjI)
                    apply (rule run)
                   apply (rule fb)
                  apply (simp_all add: p'_def)
    done
qed

theorem update_frame_witness:
  "updateProduct [widget, gadget] 7 new_fields
     = (Inr \<lparr>status = 200,
             body = \<lparr>pid = 7, user = 0, name = ''Widget 2'', price = 12,
                     description = ''Better'', image_path = ''/uploads/w2.png'',
                     brand = ''Acme'', category = ''tools'', countInStock = 3,
                     colors = [''green''], char_text = ''brass'', year = Some 2021,
                     numReviews = 1, rating = 4, reviews = [ann_review]\<rparr>\<rparr>,
        [\<lparr>pid = 7, user = 0, name = ''Widget 2'', price = 12,
                     description = ''Better'', image_path = ''/uploads/w2.png'',
                     brand = ''Acme'', category = ''tools'', countInStock = 3,
                     colors = [''green''], char_text = ''brass'', year = Some 2021,
                     numReviews = 1, rating = 4, reviews = [ann_review]\<rparr>, gadget])"
proof -
  have f: "findById 7 [widget, gadget] = Some widget"
    by (simp add: findById_def widget_def)
  from update_frame [OF f, of new_fields] obtain p' where
    run: "updateProduct [widget, gadget] 7 new_fields
                = (Inr \<lparr>status = 200, body = p'\<rparr>,
                   map (\<lambda>q. if pid q = 7 then p' else q) [widget, gadget])"
    and fr: "pid p' = pid widget" "user p' = user widget" "reviews p' = reviews widget"
      "numReviews p' = numReviews widget" "rating p' = rating widget"
    and ch: "name p' = f_name new_fields" "price p' = f_price new_fields"
      "description p' = f_description new_fields" "image_path p' = f_image new_fields"
      "brand p' = f_brand new_fields" "category p' = f_category new_fields"
      "countInStock p' = f_countInStock new_fields" "colors p' = f_colors new_fields"
      "char_text p' = f_char new_fields" "year p' = f_year new_fields"
    by blast
  have "p' = \<lparr>pid = 7, user = 0, name = ''Widget 2'', price = 12,
                     description = ''Better'', image_path = ''/uploads/w2.png'',
                     brand = ''Acme'', category = ''tools'', countInStock = 3,
                     colors = [''green''], char_text = ''brass'', year = Some 2021,
                     numReviews = 1, rating = 4, reviews = [ann_review]\<rparr>"
    using fr ch by (cases p') (simp add: widget_def new_fields_def)
  then show ?thesis unfolding run by (simp add: widget_def gadget_def)
qed

section \<open>Deleting a product\<close>

text \<open>
  Claim C6. For a product the store finds, a deletion that succeeds answers 200 with
  \<^verbatim>\<open>Product removed\<close> and has deleted the record. When the image path starts with
  \<^verbatim>\<open>/uploads\<close>, the handler first asks whether the joined path exists; when it does not,
  no file is touched and the record is
  deleted; when it exists and can be unlinked, it is unlinked, no other path changes, and
  then the record is deleted. When the path exists and the unlink is rejected, the
  deletion does not succeed: the handler stops there, and record and files are as
  before. When the image path does not start with \<^verbatim>\<open>/uploads\<close>, the only effect is the
  deletion of the record, with no call on the file system. With unique identifiers the
  identifier is gone from the collection after a deletion and every other document stays.
\<close>

theorem delete_effects:
  assumes "findById i (docs w) = Some p"
  shows "(prefix ''/uploads'' (image_path p) \<and> files w (pjoin cwd (image_path p)) = None \<longrightarrow>
            deleteProduct pjoin cwd w i
              = (Inr \<lparr>status = 200, body = ''Product removed''\<rparr>,
                 \<lparr>docs = deleteOne i (docs w), files = files w\<rparr>,
                 [ExistsSync (pjoin cwd (image_path p)), DeleteOne i]))
       \<and> (prefix ''/uploads'' (image_path p)
            \<and> files w (pjoin cwd (image_path p)) = Some Removable \<longrightarrow>
            deleteProduct pjoin cwd w i
              = (Inr \<lparr>status = 200, body = ''Product removed''\<rparr>,
                 \<lparr>docs = deleteOne i (docs w),
                  files = (files w)(pjoin cwd (image_path p) := None)\<rparr>,
                 [ExistsSync (pjoin cwd (image_path p)), Unlink (pjoin cwd (image_path p)),
                  DeleteOne i]))
       \<and> (prefix ''/uploads'' (image_path p)
            \<and> files w (pjoin cwd (image_path p)) = Some Fixed \<longrightarrow>
            deleteProduct pjoin cwd w i
              = (Inl Unhandled, w,
                 [ExistsSync (pjoin cwd (image_path p)), Unlink (pjoin cwd (image_path p))]))
       \<and> (\<not> prefix ''/uploads'' (image_path p) \<longrightarrow>
            deleteProduct pjoin cwd w i
              = (Inr \<lparr>status = 200, body = ''Product removed''\<rparr>,
                 \<lparr>docs = deleteOne i (docs w), files = files w\<rparr>,
                 [DeleteOne i]))
       \<and> (\<forall>r w' tr. deleteProduct pjoin cwd w i = (Inr r, w', tr) \<longrightarrow>
            r = \<lparr>status = 200, body = ''Product removed''\<rparr>
            \<and> docs w' = deleteOne i (docs w)
            \<and> (prefix ''/uploads'' (image_path p) \<longrightarrow>
                 files w (pjoin cwd (image_path p)) \<noteq> Some Fixed
                 \<and> files w' = (files w)(pjoin cwd (image_path p) := None)
                 \<and> tr = ExistsSync (pjoin cwd (image_path p))
                          # (if files w (pjoin cwd (image_path p)) = None then []
                             else [Unlink (pjoin cwd (image_path p))])
                          @ [DeleteOne i])
            \<and> (\<not> prefix ''/uploads'' (image_path p) \<longrightarrow>
                 files w' = files w \<and> tr = [DeleteOne i]))
       \<and> (distinct (map pid (docs w)) \<longrightarrow>
            set (deleteOne i (docs w)) = {q \<in> set (docs w). pid q \<noteq> i})"
proof -
  have i: "pid p = i" using assms by (rule findById_Some_pid)
  have cases: "(prefix ''/uploads'' (image_path p) \<and> files w (pjoin cwd (image_path p)) = None \<longrightarrow>
            deleteProduct pjoin cwd w i
              = (Inr \<lparr>status = 200, body = ''Product removed''\<rparr>,
                 \<lparr>docs = deleteOne i (docs w), files = files w\<rparr>,
                 [ExistsSync (pjoin cwd (image_path p)), DeleteOne i]))
       \<and> (prefix ''/uploads'' (image_path p)
            \<and> files w (pjoin cwd (image_path p)) = Some Removable \<longrightarrow>
            deleteProduct pjoin cwd w i
              = (Inr \<lparr>status = 200, body = ''Product removed''\<rparr>,
                 \<lparr>docs = deleteOne i (docs w),
                  files = (files w)(pjoin cwd (image_path p) := None)\<rparr>,
                 [ExistsSync (pjoin cwd (image_path p)), Unlink (pjoin cwd (image_path p)),
                  DeleteOne i]))
       \<and> (prefix ''/uploads'' (image_path p)
            \<and> files w (pjoin cwd (image_path p)) = Some Fixed \<longrightarrow>
            deleteProduct pjoin cwd w i
              = (Inl Unhandled, w,
                 [ExistsSync (pjoin cwd (image_path p)), Unlink (pjoin cwd (image_path p))]))
       \<and> (\<not> prefix ''/uploads'' (image_path p) \<longrightarrow>
            deleteProduct pjoin cwd w i
              = (Inr \<lparr>status = 200, body = ''Product removed''\<rparr>,
                 \<lparr>docs = deleteOne i (docs w), files = files w\<rparr>,
                 [DeleteOne i]))"
    by (auto simp: deleteProduct_def remove_record_def assms i ok_def Let_def)
  have success: "\<forall>r w' tr. deleteProduct pjoin cwd w i = (Inr r, w', tr) \<longrightarrow>
            r = \<lparr>status = 200, body = ''Product removed''\<rparr>
            \<and> docs w' = deleteOne i (docs w)
            \<and> (prefix ''/uploads'' (image_path p) \<longrightarrow>
                 files w (pjoin cwd (image_path p)) \<noteq> Some Fixed
                 \<and> files w' = (files w)(pjoin cwd (image_path p) := None)
                 \<and> tr = ExistsSync (pjoin cwd (image_path p))
                          # (if files w (pjoin cwd (image_path p)) = None then []
                             else [Unlink (pjoin cwd (image_path p))])
                          @ [DeleteOne i])
            \<and> (\<not> prefix ''/uploads'' (image_path p) \<longrightarrow>
                 files w' = files w \<and> tr = [DeleteOne i])"
  proof (intro allI impI)
    fix r w' tr
    assume run: "deleteProduct pjoin cwd w i = (Inr r, w', tr)"
    let ?fp = "pjoin cwd (image_path p)"
    let ?goal = "r = \<lparr>status = 200, body = ''Product removed''\<rparr>
            \<and> docs w' = deleteOne i (docs w)
            \<and> (prefix ''/uploads'' (image_path p) \<longrightarrow>
                 files w ?fp \<noteq> Some Fixed
                 \<and> files w' = (files w)(?fp := None)
                 \<and> tr = ExistsSync ?fp # (if files w ?fp = None then [] else [Unlink ?fp])
                          @ [DeleteOne i])
            \<and> (\<not> prefix ''/uploads'' (image_path p) \<longrightarrow>
                 files w' = files w \<and> tr = [DeleteOne i])"
    show ?goal
    proof (cases "prefix ''/uploads'' (image_path p)")
      case False
      with cases have "deleteProduct pjoin cwd w i
              = (Inr \<lparr>status = 200, body = ''Product removed''\<rparr>,
                 \<lparr>docs = deleteOne i (docs w), files = files w\<rparr>, [DeleteOne i])"
        by (elim conjE) simp
      with run False show ?thesis by auto
    next
      case True
      show ?thesis
      proof (cases "files w ?fp")
        case None
        with cases True have "deleteProduct pjoin cwd w i
              = (Inr \<lparr>status = 200, body = ''Product removed''\<rparr>,
                 \<lparr>docs = deleteOne i (docs w), files = files w\<rparr>,
                 [ExistsSync ?fp, DeleteOne i])"
          by (elim conjE) simp
        with run True None show ?thesis by auto
      next
        case (Some nd)
        show ?thesis
        proof (cases nd)
          case Removable
          with cases True Some have "deleteProduct pjoin cwd w i
              = (Inr \<lparr>status = 200, body = ''Product removed''\<rparr>,
                 \<lparr>docs = deleteOne i (docs w), files = (files w)(?fp := None)\<rparr>,
                 [ExistsSync ?fp, Unlink ?fp, DeleteOne i])"
            by (elim conjE) simp
          with run True Some Removable show ?thesis by auto
        next
          case Fixed
          with cases True Some have "deleteProduct pjoin cwd w i
              = (Inl Unhandled, w, [ExistsSync ?fp, Unlink ?fp])"
            by (elim conjE) simp
          with run show ?thesis by simp
        qed
      qed
    qed
  qed
  have gone: "distinct (map pid (docs w)) \<longrightarrow>
            set (deleteOne i (docs w)) = {q \<in> set (docs w). pid q \<noteq> i}"
    by (simp add: deleteOne_distinct)
  from cases success gone show ?thesis by (elim conjE) (intro conjI)
qed

theorem delete_effects_witness:
  "deleteProduct (@) ''/srv''
       \<lparr>docs = [widget, gadget], files = [''/srv/uploads/widget.png'' \<mapsto> Removable]\<rparr> 7
     = (Inr \<lparr>status = 200, body = ''Product removed''\<rparr>,
        \<lparr>docs = [gadget],
         files = Map.empty\<rparr>,
        [ExistsSync ''/srv/uploads/widget.png'', Unlink ''/srv/uploads/widget.png'',
         DeleteOne 7])
   \<and> deleteProduct (@) ''/srv''
       \<lparr>docs = [widget, gadget], files = [''/srv/other'' \<mapsto> Removable]\<rparr> 7
     = (Inr \<lparr>status = 200, body = ''Product removed''\<rparr>,
        \<lparr>docs = [gadget], files = [''/srv/other'' \<mapsto> Removable]\<rparr>,
        [ExistsSync ''/srv/uploads/widget.png'', DeleteOne 7])
   \<and> deleteProduct (@) ''/srv''
       \<lparr>docs = [widget\<lparr>image_path := ''/uploads''\<rparr>, gadget],
        files = [''/srv/uploads'' \<mapsto> Fixed]\<rparr> 7
     = (Inl Unhandled,
        \<lparr>docs = [widget\<lparr>image_path := ''/uploads''\<rparr>, gadget],
         files = [''/srv/uploads'' \<mapsto> Fixed]\<rparr>,
        [ExistsSync ''/srv/uploads'', Unlink ''/srv/uploads''])
   \<and> deleteProduct (@) ''/srv''
       \<lparr>docs = [widget, gadget], files = [''/srv/uploads/widget.png'' \<mapsto> Removable]\<rparr> 8
     = (Inr \<lparr>status = 200, body = ''Product removed''\<rparr>,
        \<lparr>docs = [widget], files = [''/srv/uploads/widget.png'' \<mapsto> Removable]\<rparr>,
        [DeleteOne 8])"
proof -
  have f7: "findById 7 (docs \<lparr>docs = [widget, gadget],
                               files = [''/srv/uploads/widget.png'' \<mapsto> Removable]\<rparr>)
              = Some widget"
    by (simp add: findById_def widget_def)
  have f7o: "findById 7 (docs \<lparr>docs = [widget, gadget],
                                files = [''/srv/other'' \<mapsto> Removable]\<rparr>)
               = Some widget"
    by (simp add: findById_def widget_def)
  have f7d: "findById 7 (docs \<lparr>docs = [widget\<lparr>image_path := ''/uploads''\<rparr>, gadget],
                                files = [''/srv/uploads'' \<mapsto> Fixed]\<rparr>)
               = Some (widget\<lparr>image_path := ''/uploads''\<rparr>)"
    by (simp add: findById_def widget_def)
  have f8: "findById 8 (docs \<lparr>docs = [widget, gadget],
                               files = [''/srv/uploads/widget.png'' \<mapsto> Removable]\<rparr>)
              = Some gadget"
    by (simp add: findById_def widget_def gadget_def)
  have a: "deleteProduct (@) ''/srv''
       \<lparr>docs = [widget, gadget], files = [''/srv/uploads/widget.png'' \<mapsto> Removable]\<rparr> 7
     = (Inr \<lparr>status = 200, body = ''Product removed''\<rparr>,
        \<lparr>docs = [gadget], files = Map.empty\<rparr>,
        [ExistsSync ''/srv/uploads/widget.png'', Unlink ''/srv/uploads/widget.png'',
         DeleteOne 7])"
    using delete_effects [OF f7, where pjoin = "(@)" and cwd = "''/srv''",
        THEN conjunct2, THEN conjunct1]
    by (simp add: widget_def)
  have b: "deleteProduct (@) ''/srv''
       \<lparr>docs = [widget, gadget], files = [''/srv/other'' \<mapsto> Removable]\<rparr> 7
     = (Inr \<lparr>status = 200, body = ''Product removed''\<rparr>,
        \<lparr>docs = [gadget], files = [''/srv/other'' \<mapsto> Removable]\<rparr>,
        [ExistsSync ''/srv/uploads/widget.png'', DeleteOne 7])"
    using delete_effects [OF f7o, where pjoin = "(@)" and cwd = "''/srv''", THEN conjunct1]
    by (simp add: widget_def)
  have c: "deleteProduct (@) ''/srv''
       \<lparr>docs = [widget\<lparr>image_path := ''/uploads''\<rparr>, gadget],
        files = [''/srv/uploads'' \<mapsto> Fixed]\<rparr> 7
     = (Inl Unhandled,
        \<lparr>docs = [widget\<lparr>image_path := ''/uploads''\<rparr>, gadget],
         files = [''/srv/uploads'' \<mapsto> Fixed]\<rparr>,
        [ExistsSync ''/srv/uploads'', Unlink ''/srv/uploads''])"
    using delete_effects [OF f7d, where pjoin = "(@)" and cwd = "''/srv''",
        THEN conjunct2, THEN conjunct2, THEN conjunct1]
    by simp
  have d: "deleteProduct (@) ''/srv''
       \<lparr>docs = [widget, gadget], files = [''/srv/uploads/widget.png'' \<mapsto> Removable]\<rparr> 8
     = (Inr \<lparr>status = 200, body = ''Product removed''\<rparr>,
        \<lparr>docs = [widget], files = [''/srv/uploads/widget.png'' \<mapsto> Removable]\<rparr>,
        [DeleteOne 8])"
    using delete_effects [OF f8, where pjoin = "(@)" and cwd = "''/srv''",
        THEN conjunct2, THEN conjunct2, THEN conjunct2, THEN conjunct1]
    by (simp add: widget_def gadget_def)
  from a b c d show ?thesis by (intro conjI)
qed

section \<open>Pagination\<close>

lemma concat_pages:
  "concat (map (\<lambda>k. take P (drop (P * k) xs)) [0..<m]) = take (P * m) xs"
proof (induction m)
  case 0
  show ?case by simp
next
  case (Suc m)
  have "take (P * m + P) xs = take (P * m) xs @ take P (drop (P * m) xs)"
    by (rule take_add)
  with Suc show ?case by (simp add: add.commute)
qed

lemma pages_from_one:
  "map (\<lambda>k. g (k - 1)) [1..<Suc m] = map g [0..<m]"
proof -
  have "[1..<Suc m] = map Suc [0..<m]" by (simp add: map_Suc_upt)
  then show ?thesis by (simp add: comp_def)
qed

lemma ceil_cover:
  assumes "0 < P"
  shows "N \<le> P * nat \<lceil>(of_nat N :: rat) / of_nat P\<rceil>"
proof -
  let ?c = "\<lceil>(of_nat N :: rat) / of_nat P\<rceil>"
  have "(0::rat) \<le> of_nat N / of_nat P" by simp
  then have "- 1 < (of_nat N :: rat) / of_nat P" by linarith
  then have c0: "0 \<le> ?c" by (simp only: zero_le_ceiling)
  have P0: "0 < (of_nat P :: rat)" using assms by simp
  have "(of_nat N :: rat) / of_nat P \<le> of_int ?c" by (rule le_of_int_ceiling)
  then have "(of_nat N :: rat) \<le> of_int ?c * of_nat P"
    by (simp only: pos_divide_le_eq [OF P0])
  also have "of_int ?c = (of_nat (nat ?c) :: rat)"
    using c0 by (metis of_nat_nat)
  finally have "(of_nat N :: rat) \<le> of_nat (nat ?c * P)" by simp
  then have "N \<le> nat ?c * P" by (simp only: of_nat_le_iff)
  then show ?thesis by (simp add: mult.commute)
qed

text \<open>
  What the keyword selects: every product when there is no keyword or an empty one,
  and otherwise the products whose name the compiled keyword matches.
\<close>

lemma keyword_filter_matches:
  assumes "case keyword of
             None \<Rightarrow> matches = db
           | Some k \<Rightarrow>
               if k = [] then matches = db
               else \<exists>m. rx k ''i'' = Some m \<and> matches = filter (\<lambda>p. m (name p)) db"
  shows "\<exists>f. keyword_filter rx keyword = Some f \<and> filter f db = matches"
proof (cases keyword)
  case None
  with assms show ?thesis by (simp add: keyword_filter_def)
next
  case (Some k)
  show ?thesis
  proof (cases "k = []")
    case True
    with assms Some show ?thesis by (simp add: keyword_filter_def)
  next
    case False
    with assms Some obtain m where "rx k ''i'' = Some m"
      and "matches = filter (\<lambda>p. m (name p)) db"
      by auto
    with Some False show ?thesis by (simp add: keyword_filter_def)
  qed
qed

text \<open>
  A page size of 0 is no limit to the store: every match is sent on every page, and the
  page count is \<^verbatim>\<open>null\<close>. A keyword that begins with a quantifier is rejected by the
  store, whatever lies beyond the fragment of its engine, and no page is sent.
\<close>

lemma page_size_zero:
  "getProducts rx (Some 0) db None pageNumber
     = Inr \<lparr>status = 200, body = \<lparr>products = db, page = page_of pageNumber, pages = None\<rparr>\<rparr>"
  by (simp add: getProducts_def keyword_filter_def pageSize_of_def limit_def skip_def
      ceil_pages_def ok_def)

lemma malformed_keyword:
  "getProducts (store_regex b) env db (Some (CHR ''*'' # k)) pageNumber = Inl Unhandled"
  by (simp add: getProducts_def keyword_filter_def store_regex_def parse_def quant_of_def)

lemma getProducts_page:
  assumes "keyword_filter rx keyword = Some f" and "0 < pageSize_of env" and "1 \<le> n"
  shows "getProducts rx env db keyword (Some n)
           = Inr \<lparr>status = 200,
                  body = \<lparr>products = take (pageSize_of env)
                                        (drop (pageSize_of env * (n - 1)) (filter f db)),
                          page = n,
                          pages = Some (nat \<lceil>(of_nat (length (filter f db)) :: rat)
                                              / of_nat (pageSize_of env)\<rceil>)\<rparr>\<rparr>"
  using assms
  by (simp add: getProducts_def Let_def page_of_def limit_def skip_def ceil_pages_def ok_def)

text \<open>
  Claim C3, as the code has it. Let \<open>matches\<close> be what the keyword selects from the
  collection: all of it when there is no keyword or an empty one, and otherwise, the
  store accepting the keyword as a pattern under the option \<^verbatim>\<open>i\<close>, the products whose name
  the pattern matches. Let the page size be positive and the page number \<open>n\<close> at least
  1. Then \<^verbatim>\<open>getProducts\<close> sends the matches left after skipping page size times \<open>n - 1\<close> of
  them, cut to the page size, so at most that many, together with the page number and a
  page count equal to the ceiling of the number of matches over the page size. The page
  size is the environment's value and 10 when there is none. The pages from 1 to the
  page count, put end to end, are the list of matches.
\<close>

theorem pagination:
  assumes "0 < pageSize_of env" and "1 \<le> n"
    and "case keyword of
           None \<Rightarrow> matches = db
         | Some k \<Rightarrow>
             if k = [] then matches = db
             else \<exists>m. rx k ''i'' = Some m \<and> matches = filter (\<lambda>p. m (name p)) db"
  shows "getProducts rx env db keyword (Some n)
           = Inr \<lparr>status = 200,
                  body = \<lparr>products = take (pageSize_of env)
                                        (drop (pageSize_of env * (n - 1)) matches),
                          page = n,
                          pages = Some (nat \<lceil>(of_nat (length matches) :: rat)
                                              / of_nat (pageSize_of env)\<rceil>)\<rparr>\<rparr>
       \<and> length (products (body (projr (getProducts rx env db keyword (Some n)))))
           \<le> pageSize_of env
       \<and> concat (map (\<lambda>k. products (body (projr (getProducts rx env db keyword (Some k)))))
                  [1..<Suc (nat \<lceil>(of_nat (length matches) :: rat)
                                  / of_nat (pageSize_of env)\<rceil>)])
           = matches
       \<and> pageSize_of None = 10 \<and> pageSize_of (Some s) = s"
proof -
  from keyword_filter_matches [where keyword = keyword and matches = matches and db = db
      and rx = rx, OF assms(3)] obtain f
    where f: "keyword_filter rx keyword = Some f" and m: "filter f db = matches"
    by (elim exE conjE)
  let ?P = "pageSize_of env"
  let ?m = "nat \<lceil>(of_nat (length matches) :: rat) / of_nat ?P\<rceil>"
  note pg = getProducts_page [OF f assms(1), of _ db, unfolded m]
  have one: "getProducts rx env db keyword (Some n)
           = Inr \<lparr>status = 200,
                  body = \<lparr>products = take ?P (drop (?P * (n - 1)) matches), page = n,
                          pages = Some ?m\<rparr>\<rparr>"
    using assms(2) by (rule pg)
  have len: "length (products (body (projr (getProducts rx env db keyword (Some n))))) \<le> ?P"
    unfolding one by simp
  have "map (\<lambda>k. products (body (projr (getProducts rx env db keyword (Some k))))) [1..<Suc ?m]
        = map (\<lambda>k. take ?P (drop (?P * (k - 1)) matches)) [1..<Suc ?m]"
  proof (rule map_cong [OF refl])
    fix k
    assume "k \<in> set [1..<Suc ?m]"
    then have "1 \<le> k" by auto
    from pg [OF this]
    show "products (body (projr (getProducts rx env db keyword (Some k))))
          = take ?P (drop (?P * (k - 1)) matches)"
      by simp
  qed
  also have "\<dots> = map (\<lambda>k. take ?P (drop (?P * k) matches)) [0..<?m]"
    by (rule pages_from_one)
  finally have "concat (map (\<lambda>k. products (body (projr (getProducts rx env db keyword (Some k)))))
                  [1..<Suc ?m]) = take (?P * ?m) matches"
    by (simp only: concat_pages)
  moreover have "length matches \<le> ?P * ?m" using assms(1) by (rule ceil_cover)
  ultimately have cat: "concat (map (\<lambda>k. products (body (projr (getProducts rx env db keyword (Some k)))))
                  [1..<Suc ?m]) = matches"
    by simp
  have dflt: "pageSize_of None = 10 \<and> pageSize_of (Some s) = s"
    by (simp add: pageSize_of_def)
  from one len cat dflt show ?thesis by (intro conjI) simp_all
qed

theorem pagination_witness:
  "getProducts (store_regex nothing_beyond) (Some 1) [widget, gadget, gadget\<lparr>pid := 9\<rparr>]
       (Some ''GAD'') (Some 2)
     = Inr \<lparr>status = 200,
            body = \<lparr>products = [gadget\<lparr>pid := 9\<rparr>], page = 2, pages = Some 2\<rparr>\<rparr>
   \<and> products (body (projr (getProducts (store_regex nothing_beyond) (Some 1)
         [widget, gadget, gadget\<lparr>pid := 9\<rparr>] (Some ''GAD'') (Some 1))))
       @ products (body (projr (getProducts (store_regex nothing_beyond) (Some 1)
         [widget, gadget, gadget\<lparr>pid := 9\<rparr>] (Some ''GAD'') (Some 2))))
     = [gadget, gadget\<lparr>pid := 9\<rparr>]"
proof -
  have s: "0 < pageSize_of (Some 1)" by (simp add: pageSize_of_def)
  have n: "(1::nat) \<le> 2" by simp
  have k: "case Some ''GAD'' of
             None \<Rightarrow> [gadget, gadget\<lparr>pid := 9\<rparr>] = [widget, gadget, gadget\<lparr>pid := 9\<rparr>]
           | Some k \<Rightarrow>
               if k = [] then [gadget, gadget\<lparr>pid := 9\<rparr>] = [widget, gadget, gadget\<lparr>pid := 9\<rparr>]
               else \<exists>m. store_regex nothing_beyond k ''i'' = Some m
                      \<and> [gadget, gadget\<lparr>pid := 9\<rparr>]
                          = filter (\<lambda>p. m (name p)) [widget, gadget, gadget\<lparr>pid := 9\<rparr>]"
    by (simp add: store_regex_def parse_def quant_of_def atom_of_def metachars_def ascii_def
        to_lower_def widget_def gadget_def)
  have c: "nat \<lceil>(of_nat (length [gadget, gadget\<lparr>pid := 9\<rparr>]) :: rat)
                  / of_nat (pageSize_of (Some 1))\<rceil> = 2"
    by (simp add: pageSize_of_def)
  have u: "[1..<Suc 2] = [1, 2]" by (simp add: upt_rec)
  show ?thesis
    using pagination [where env = "Some 1" and n = 2 and keyword = "Some ''GAD''"
        and matches = "[gadget, gadget\<lparr>pid := 9\<rparr>]"
        and db = "[widget, gadget, gadget\<lparr>pid := 9\<rparr>]"
        and rx = "store_regex nothing_beyond" and s = 1, OF s n k]
      pagination [where env = "Some 1" and n = 1 and keyword = "Some ''GAD''"
        and matches = "[gadget, gadget\<lparr>pid := 9\<rparr>]"
        and db = "[widget, gadget, gadget\<lparr>pid := 9\<rparr>]"
        and rx = "store_regex nothing_beyond" and s = 1, OF s order_refl k]
    unfolding c u
    by (simp add: pageSize_of_def)
qed

text \<open>
  The claim as the specification words it fails when the configured page size is 0:
  both products come on page 1 and again on page 2, two against a page size of 0, and
  the page count is \<^verbatim>\<open>null\<close>. It also fails on a keyword the store rejects, such as
  \<^verbatim>\<open>*\<close>: no page is sent.
\<close>

theorem pagination_counterexample:
  "pageSize_of (Some 0) = 0
   \<and> getProducts (store_regex nothing_beyond) (Some 0) [widget, gadget] None (Some 1)
       = Inr \<lparr>status = 200,
              body = \<lparr>products = [widget, gadget], page = 1, pages = None\<rparr>\<rparr>
   \<and> getProducts (store_regex nothing_beyond) (Some 0) [widget, gadget] None (Some 2)
       = Inr \<lparr>status = 200,
              body = \<lparr>products = [widget, gadget], page = 2, pages = None\<rparr>\<rparr>
   \<and> getProducts (store_regex nothing_beyond) None [widget, gadget] (Some ''*'') (Some 1)
       = Inl Unhandled"
  by (simp add: page_size_zero malformed_keyword pageSize_of_def page_of_def)

section \<open>The category listing\<close>

lemma group_min_max_Min_Max:
  "group_min_max xs = (if xs = [] then [] else [(Min (set xs), Max (set xs))])"
  by (cases xs) (simp_all add: Min.set_eq_fold [symmetric] Max.set_eq_fold [symmetric])

text \<open>
  Claim C4, as the code has it. For a non-empty category, \<^verbatim>\<open>getProductsByCategory\<close> always
  sends a body. Its \<open>minPrice\<close> and \<open>maxPrice\<close> are the least and the greatest price among
  all products of the category, and \<^verbatim>\<open>null\<close> when there is none. The status is 404 exactly
  when the page of products in the body is empty, and 200 otherwise. So it is 404
  whenever no product is of the category, and on the first page with a positive page
  size it is 404 only then.
\<close>

theorem category_listing_status:
  assumes "c \<noteq> []"
  shows "minPrice (body (getProductsByCategory env db c pageNumber))
           = (if filter (\<lambda>p. category p = c) db = [] then None
              else Some (Min (price ` set (filter (\<lambda>p. category p = c) db))))
       \<and> maxPrice (body (getProductsByCategory env db c pageNumber))
           = (if filter (\<lambda>p. category p = c) db = [] then None
              else Some (Max (price ` set (filter (\<lambda>p. category p = c) db))))
       \<and> products (body (getProductsByCategory env db c pageNumber))
           = limit (pageSize_of env)
               (drop (pageSize_of env * (page_of pageNumber - 1))
                  (filter (\<lambda>p. category p = c) db))
       \<and> status (getProductsByCategory env db c pageNumber)
           = (if products (body (getProductsByCategory env db c pageNumber)) = []
              then 404 else 200)
       \<and> (filter (\<lambda>p. category p = c) db = [] \<longrightarrow>
            status (getProductsByCategory env db c pageNumber) = 404)
       \<and> (0 < pageSize_of env \<and> page_of pageNumber = 1 \<longrightarrow>
            (status (getProductsByCategory env db c pageNumber) = 404
               \<longleftrightarrow> filter (\<lambda>p. category p = c) db = []))"
proof -
  let ?ms = "filter (\<lambda>p. category p = c) db"
  let ?r = "getProductsByCategory env db c pageNumber"
  have cf: "filter (category_filter c) db = ?ms"
    using assms by (simp add: category_filter_def)
  have mn: "minPrice (body ?r) = (if ?ms = [] then None else Some (Min (price ` set ?ms)))"
    by (simp add: getProductsByCategory_def Let_def cf group_min_max_Min_Max)
  have mx: "maxPrice (body ?r) = (if ?ms = [] then None else Some (Max (price ` set ?ms)))"
    by (simp add: getProductsByCategory_def Let_def cf group_min_max_Min_Max)
  have pr: "products (body ?r)
              = limit (pageSize_of env) (drop (pageSize_of env * (page_of pageNumber - 1)) ?ms)"
    by (simp add: getProductsByCategory_def Let_def cf skip_def)
  have st: "status ?r = (if products (body ?r) = [] then 404 else 200)"
    by (simp add: getProductsByCategory_def Let_def)
  have e: "?ms = [] \<longrightarrow> status ?r = 404"
    unfolding st pr by (simp add: limit_def)
  have f: "0 < pageSize_of env \<and> page_of pageNumber = 1 \<longrightarrow> (status ?r = 404 \<longleftrightarrow> ?ms = [])"
    unfolding st pr by (auto simp: limit_def)
  from mn mx pr st e f show ?thesis by blast
qed

theorem category_listing_status_witness:
  "minPrice (body (getProductsByCategory None [widget, gadget] ''tools'' None)) = Some (999 / 100)
   \<and> maxPrice (body (getProductsByCategory None [widget, gadget] ''tools'' None)) = Some (999 / 100)
   \<and> products (body (getProductsByCategory None [widget, gadget] ''tools'' None)) = [widget]
   \<and> status (getProductsByCategory None [widget, gadget] ''tools'' None) = 200"
proof -
  have c: "''tools'' \<noteq> []" by simp
  have m: "filter (\<lambda>p. category p = ''tools'') [widget, gadget] = [widget]"
    by (simp add: widget_def gadget_def)
  show ?thesis
    using category_listing_status [OF c, of None "[widget, gadget]" None]
    unfolding m by (simp add: pageSize_of_def page_of_def limit_def widget_def)
qed

text \<open>
  The claim as the specification words it fails on a page past the last one: one product
  is of the category, the second page is empty, and the status is 404.
\<close>

theorem category_not_found_counterexample:
  "category widget = ''tools''
   \<and> status (getProductsByCategory None [widget, gadget] ''tools'' (Some 2)) = 404
   \<and> products (body (getProductsByCategory None [widget, gadget] ''tools'' (Some 2))) = []
   \<and> minPrice (body (getProductsByCategory None [widget, gadget] ''tools'' (Some 2)))
       = Some (999 / 100)"
  by (simp add: getProductsByCategory_def category_filter_def pageSize_of_def page_of_def
      limit_def skip_def ceil_pages_def widget_def gadget_def)

section \<open>Top products\<close>

lemma top_three_dominates:
  assumes "p \<in> set (take n (sort_key (\<lambda>p. - rating p) db))"
    and "q \<in> set (drop n (sort_key (\<lambda>p. - rating p) db))"
  shows "rating q \<le> rating p"
proof -
  let ?s = "sort_key (\<lambda>p. - rating p) db"
  have "sorted (map (\<lambda>p. - rating p) (take n ?s @ drop n ?s))"
    by (simp only: append_take_drop_id sorted_sort_key)
  then have "\<forall>x\<in>set (map (\<lambda>p. - rating p) (take n ?s)).
               \<forall>y\<in>set (map (\<lambda>p. - rating p) (drop n ?s)). x \<le> y"
    by (simp only: map_append sorted_append) blast
  with assms show ?thesis by auto
qed

text \<open>
  Claim C7. \<^verbatim>\<open>getTopProducts\<close> sends at most three products, each of them stored, in
  descending order of rating, and a stored product that is not sent has a rating no
  greater than that of any product sent.
\<close>

theorem top_products:
  "length (body (getTopProducts db)) \<le> 3
   \<and> set (body (getTopProducts db)) \<subseteq> set db
   \<and> sorted (rev (map rating (body (getTopProducts db))))
   \<and> (\<forall>p\<in>set (body (getTopProducts db)). \<forall>q\<in>set db.
         q \<notin> set (body (getTopProducts db)) \<longrightarrow> rating q \<le> rating p)
   \<and> status (getTopProducts db) = 200"
proof -
  let ?s = "sort_key (\<lambda>p. - rating p) db"
  have b: "body (getTopProducts db) = take 3 ?s"
    by (simp add: getTopProducts_def ok_def limit_def)
  have l: "length (take 3 ?s) \<le> 3" by simp
  have sub: "set (take 3 ?s) \<subseteq> set db"
    using set_take_subset [of 3 ?s] by simp
  have "sorted (map (\<lambda>p. - rating p) ?s)" by (rule sorted_sort_key)
  then have "sorted (take 3 (map (\<lambda>p. - rating p) ?s))" by (rule sorted_wrt_take)
  then have "sorted (map (\<lambda>p. - rating p) (take 3 ?s))" by (simp only: take_map)
  then have "sorted_wrt (\<lambda>x y. rating y \<le> rating x) (take 3 ?s)"
    by (simp only: sorted_wrt_map neg_le_iff_le)
  then have srt: "sorted (rev (map rating (take 3 ?s)))"
    by (simp only: sorted_wrt_rev sorted_wrt_map)
  have dom: "\<forall>p\<in>set (take 3 ?s). \<forall>q\<in>set db. q \<notin> set (take 3 ?s) \<longrightarrow> rating q \<le> rating p"
  proof (intro ballI impI)
    fix p q
    assume p: "p \<in> set (take 3 ?s)" and q: "q \<in> set db" and n: "q \<notin> set (take 3 ?s)"
    from q have "q \<in> set (take 3 ?s @ drop 3 ?s)"
      by (simp only: append_take_drop_id set_sort)
    then have "q \<in> set (take 3 ?s) \<union> set (drop 3 ?s)" by (simp only: set_append)
    with n have "q \<in> set (drop 3 ?s)" by blast
    with p show "rating q \<le> rating p" by (rule top_three_dominates)
  qed
  have st: "status (getTopProducts db) = 200" by (simp add: getTopProducts_def ok_def)
  show ?thesis
    unfolding b using l sub srt dom st by (intro conjI)
qed

theorem top_products_witness:
  "body (getTopProducts [gadget, widget, gadget\<lparr>pid := 9, rating := 5\<rparr>,
                         widget\<lparr>pid := 10, rating := 1\<rparr>])
     = [gadget\<lparr>pid := 9, rating := 5\<rparr>, widget, widget\<lparr>pid := 10, rating := 1\<rparr>]
   \<and> length (body (getTopProducts [gadget, widget, gadget\<lparr>pid := 9, rating := 5\<rparr>,
                                  widget\<lparr>pid := 10, rating := 1\<rparr>])) \<le> 3
   \<and> sorted (rev (map rating (body (getTopProducts
             [gadget, widget, gadget\<lparr>pid := 9, rating := 5\<rparr>,
              widget\<lparr>pid := 10, rating := 1\<rparr>]))))"
  using top_products [of "[gadget, widget, gadget\<lparr>pid := 9, rating := 5\<rparr>,
                           widget\<lparr>pid := 10, rating := 1\<rparr>]"]
  by (simp add: getTopProducts_def ok_def limit_def widget_def gadget_def)

section \<open>Distinct values\<close>

text \<open>
  Claim C8. The brands, colours and years sent by the three lookups have no duplicate
  entry and are exactly the values that occur in the collection (for the years, those
  that are not \<^verbatim>\<open>null\<close>). The brands are in ascending lexicographic order, and no year in
  the answer is \<^verbatim>\<open>null\<close>.
\<close>

theorem distinct_values:
  "distinct (body (getAllBrands db))
   \<and> sorted (body (getAllBrands db))
   \<and> set (body (getAllBrands db)) = brand ` set db
   \<and> distinct (body (getAllColors db))
   \<and> set (body (getAllColors db)) = (\<Union>p\<in>set db. set (colors p))
   \<and> distinct (body (getAllYears db))
   \<and> None \<notin> set (body (getAllYears db))
   \<and> set (body (getAllYears db)) = year ` set db - {None}"
proof (intro conjI)
  show "distinct (body (getAllBrands db))"
    by (simp add: getAllBrands_def ok_def group_keys_def)
  show "sorted (body (getAllBrands db))"
    by (simp add: getAllBrands_def ok_def)
  show "set (body (getAllBrands db)) = brand ` set db"
    by (simp add: getAllBrands_def ok_def group_keys_def)
  show "distinct (body (getAllColors db))"
    by (simp add: getAllColors_def ok_def group_keys_def)
  show "set (body (getAllColors db)) = (\<Union>p\<in>set db. set (colors p))"
    by (simp add: getAllColors_def ok_def group_keys_def)
  show "distinct (body (getAllYears db))"
    by (simp add: getAllYears_def ok_def group_keys_def)
  show "None \<notin> set (body (getAllYears db))"
    by (auto simp: getAllYears_def ok_def group_keys_def)
  show "set (body (getAllYears db)) = year ` set db - {None}"
    by (auto simp: getAllYears_def ok_def group_keys_def)
qed

theorem distinct_values_witness:
  "body (getAllBrands [gadget, widget, gadget\<lparr>pid := 9\<rparr>]) = [''Acme'', ''Bolt'']
   \<and> body (getAllColors [gadget, widget, gadget\<lparr>pid := 9\<rparr>]) = [''blue'', ''red'']
   \<and> body (getAllYears [gadget, widget, gadget\<lparr>pid := 9\<rparr>]) = [Some 2020]
   \<and> distinct (body (getAllBrands [gadget, widget, gadget\<lparr>pid := 9\<rparr>]))
   \<and> sorted (body (getAllBrands [gadget, widget, gadget\<lparr>pid := 9\<rparr>]))"
  using distinct_values [of "[gadget, widget, gadget\<lparr>pid := 9\<rparr>]"]
  by (simp add: getAllBrands_def getAllColors_def getAllYears_def ok_def group_keys_def
      widget_def gadget_def)

section \<open>The keyword filter\<close>









text \<open>What \<open>contains_ci\<close> says: a stretch of the name is the keyword, letter for letter.\<close>

lemma starts_ci_iff:
  "starts_ci k s \<longleftrightarrow> (\<exists>w suf. s = w @ suf \<and> list_all2 same_letter k w)"
proof (induction k s rule: starts_ci.induct)
  case (1 s)
  show ?case by simp
next
  case (2 a k)
  show ?case by simp
next
  case (3 a k c s)
  show ?case
  proof
    assume "starts_ci (a # k) (c # s)"
    then have "same_letter a c" and "starts_ci k s" by simp_all
    with "3.IH" obtain w suf where "s = w @ suf" and "list_all2 same_letter k w" by blast
    with \<open>same_letter a c\<close> have "c # s = (c # w) @ suf \<and> list_all2 same_letter (a # k) (c # w)"
      by simp
    then show "\<exists>w suf. c # s = w @ suf \<and> list_all2 same_letter (a # k) w" by blast
  next
    assume "\<exists>w suf. c # s = w @ suf \<and> list_all2 same_letter (a # k) w"
    then obtain w suf where e: "c # s = w @ suf" and l: "list_all2 same_letter (a # k) w"
      by blast
    from l obtain c' w' where w: "w = c' # w'" and "same_letter a c'"
      and "list_all2 same_letter k w'"
      by (auto simp: list_all2_Cons1)
    with e have "c' = c" and "s = w' @ suf" by simp_all
    with "3.IH" \<open>same_letter a c'\<close> \<open>list_all2 same_letter k w'\<close>
    show "starts_ci (a # k) (c # s)" by auto
  qed
qed

lemma contains_ci_iff:
  "contains_ci k s \<longleftrightarrow> (\<exists>pre w suf. s = pre @ w @ suf \<and> list_all2 same_letter k w)"
proof (induction s)
  case Nil
  show ?case by (auto simp: starts_ci_iff)
next
  case (Cons c s)
  show ?case
  proof
    assume "contains_ci k (c # s)"
    then consider "starts_ci k (c # s)" | "contains_ci k s" by auto
    then show "\<exists>pre w suf. c # s = pre @ w @ suf \<and> list_all2 same_letter k w"
    proof cases
      case 1
      then obtain w suf where "c # s = [] @ w @ suf" and "list_all2 same_letter k w"
        by (auto simp: starts_ci_iff)
      then show ?thesis by blast
    next
      case 2
      with Cons.IH obtain pre w suf where "s = pre @ w @ suf" and "list_all2 same_letter k w"
        by blast
      then have "c # s = (c # pre) @ w @ suf \<and> list_all2 same_letter k w" by simp
      then show ?thesis by blast
    qed
  next
    assume "\<exists>pre w suf. c # s = pre @ w @ suf \<and> list_all2 same_letter k w"
    then obtain pre w suf where e: "c # s = pre @ w @ suf" and l: "list_all2 same_letter k w"
      by blast
    show "contains_ci k (c # s)"
    proof (cases pre)
      case Nil
      with e l have "starts_ci k (c # s)" by (auto simp: starts_ci_iff)
      then show ?thesis by simp
    next
      case (Cons c' pre')
      with e have "s = pre' @ w @ suf" by simp
      with l Cons.IH have "contains_ci k s" by blast
      then show ?thesis by simp
    qed
  qed
qed









end
